theory Spec2Isabelle
  imports Complex_Main "HOL-Library.Sublist"
begin

section \<open>Python strings\<close>

text \<open>
  A Python \<open>str\<close> is a sequence of Unicode code points. The markers of the service are
  Hangul, so a string is modelled as the list of its code points (natural numbers), not as
  a list of 8-bit characters: \<open>len\<close>, \<open>in\<close>, \<open>split\<close> and \<open>strip\<close> all count code points.
\<close>

type_synonym pystr = "nat list"

text \<open>An ASCII literal of the source, as code points.\<close>

definition ascii :: "string \<Rightarrow> pystr" where
  "ascii s = map of_char s"

text \<open>
  What \<open>str(e)\<close> of a caught exception yields is all the handlers of the service ever
  read of it, so an exception is modelled by its message. The values of this type are the
  instances of \<open>Exception\<close>, which is what \<open>except Exception\<close> catches and what the
  tokenizer and model runtime raise.
\<close>

datatype py_exception = PyException (message: pystr)

type_synonym 'a result = "py_exception + 'a"

definition bind_exn :: "'a result \<Rightarrow> ('a \<Rightarrow> 'b result) \<Rightarrow> 'b result" where
  "bind_exn m f = (case m of Inl e \<Rightarrow> Inl e | Inr v \<Rightarrow> f v)"

text \<open>
  \<open>str.isspace\<close> for one code point, as CPython's \<open>_PyUnicode_IsWhitespace\<close> has it:
  U+0009..U+000D, U+001C..U+0020, U+0085, U+00A0, U+1680, U+2000..U+200A, U+2028, U+2029,
  U+202F, U+205F and U+3000.
\<close>

definition is_space :: "nat \<Rightarrow> bool" where
  "is_space c \<longleftrightarrow>
     (9 \<le> c \<and> c \<le> 13) \<or> (28 \<le> c \<and> c \<le> 32) \<or> c = 133 \<or> c = 160 \<or> c = 5760 \<or>
     (8192 \<le> c \<and> c \<le> 8202) \<or> c = 8232 \<or> c = 8233 \<or> c = 8239 \<or> c = 8287 \<or> c = 12288"

definition lstrip :: "pystr \<Rightarrow> pystr" where
  "lstrip s = dropWhile is_space s"

definition rstrip :: "pystr \<Rightarrow> pystr" where
  "rstrip s = rev (dropWhile is_space (rev s))"

text \<open>\<open>s.strip()\<close>: whitespace removed at both ends.\<close>

definition strip :: "pystr \<Rightarrow> pystr" where
  "strip s = rstrip (lstrip s)"

text \<open>\<open>sub in s\<close>: \<open>sub\<close> occurs in \<open>s\<close> as a contiguous substring.\<close>

fun py_in :: "'a list \<Rightarrow> 'a list \<Rightarrow> bool" where
  "py_in sub [] = (sub = [])"
| "py_in sub (c # cs) = (prefix sub (c # cs) \<or> py_in sub cs)"

text \<open>\<open>s.find(sep)\<close>: the lowest index at which \<open>sep\<close> occurs, \<open>None\<close> for Python's -1.\<close>

fun find_first :: "'a list \<Rightarrow> 'a list \<Rightarrow> nat option" where
  "find_first sep [] = (if sep = [] then Some 0 else None)"
| "find_first sep (c # cs) =
     (if prefix sep (c # cs) then Some 0 else map_option Suc (find_first sep cs))"

text \<open>
  \<open>s.split(sep, 1)\<close>: at most one split, at the leftmost occurrence of \<open>sep\<close>; a list of
  one string when \<open>sep\<close> does not occur, and ValueError on an empty separator.
\<close>

definition empty_separator_msg :: pystr where
  "empty_separator_msg = ascii ''empty separator''"

definition py_split1 :: "'a list \<Rightarrow> 'a list \<Rightarrow> 'a list list result" where
  "py_split1 sep s =
     (if sep = [] then Inl (PyException empty_separator_msg)
      else (case find_first sep s of
              None \<Rightarrow> Inr [s]
            | Some i \<Rightarrow> Inr [take i s, drop (i + length sep) s]))"

text \<open>\<open>xs[k]\<close> for a non-negative \<open>k\<close>: IndexError out of range.\<close>

definition index_error_msg :: pystr where
  "index_error_msg = ascii ''list index out of range''"

definition py_index :: "'a list \<Rightarrow> nat \<Rightarrow> 'a result" where
  "py_index xs k = (if k < length xs then Inr (xs ! k) else Inl (PyException index_error_msg))"

text \<open>\<open>s.split(sep, 1)[k]\<close>.\<close>

definition split_part :: "'a list \<Rightarrow> nat \<Rightarrow> 'a list \<Rightarrow> 'a list result" where
  "split_part sep k s = bind_exn (py_split1 sep s) (\<lambda>parts. py_index parts k)"

section \<open>Answer extraction\<close>

text \<open>
  The markers, as code points: the answer marker is U+B2F5 U+BCC0 followed by a colon, the
  question marker is U+C9C8 U+BB38 followed by a colon, and the markup character is \<open><\<close>.
\<close>

definition answer_marker :: pystr where
  "answer_marker = [45813, 48320, 58]"

definition question_marker :: pystr where
  "question_marker = [51656, 47928, 58]"

definition lt_char :: nat where
  "lt_char = 60"

text \<open>
  Lines 196 to 207 of \<open>app.py\<close>, inside \<open>predict\<close>: \<open>answer_only\<close> computed from
  \<open>full_output\<close>. Every subscript of a split is a branch that may raise.
\<close>

definition extract_answer :: "pystr \<Rightarrow> pystr result" where
  "extract_answer full_output =
     (if py_in answer_marker full_output then
        bind_exn (split_part answer_marker 1 full_output) (\<lambda>p.
        bind_exn
          (if py_in question_marker (strip p)
           then bind_exn (split_part question_marker 0 (strip p)) (\<lambda>q. Inr (strip q))
           else Inr (strip p)) (\<lambda>a.
        if py_in [lt_char] a
        then bind_exn (split_part [lt_char] 0 a) (\<lambda>r. Inr (strip r))
        else Inr a))
      else Inr full_output)"

text \<open>Lines 82 to 93 of \<open>test_local.py\<close>, inside \<open>ask_question\<close>: the same steps, written again.\<close>

definition extract_answer_local :: "pystr \<Rightarrow> pystr result" where
  "extract_answer_local full_output =
     (if py_in answer_marker full_output then
        bind_exn (split_part answer_marker 1 full_output) (\<lambda>p.
        bind_exn
          (if py_in question_marker (strip p)
           then bind_exn (split_part question_marker 0 (strip p)) (\<lambda>q. Inr (strip q))
           else Inr (strip p)) (\<lambda>a.
        if py_in [lt_char] a
        then bind_exn (split_part [lt_char] 0 a) (\<lambda>r. Inr (strip r))
        else Inr a))
      else Inr full_output)"

text \<open>
  The position of the first occurrence, stated without the search: \<open>sep\<close> occurs at index
  \<open>i\<close> of \<open>s\<close> and at no lower index.
\<close>

definition first_at :: "'a list \<Rightarrow> 'a list \<Rightarrow> nat \<Rightarrow> bool" where
  "first_at sep s i \<longleftrightarrow>
     i \<le> length s \<and> prefix sep (drop i s) \<and> (\<forall>j<i. \<not> prefix sep (drop j s))"

section \<open>The service: globals, request and response models\<close>

text \<open>
  The tokenizer and the model are objects of the external runtime. The service only calls
  them, so each is a record of the methods and attributes the handlers use; a method
  returns its value or raises. Token ids are integers, a batch is a list of sequences.
  Sampling makes \<open>generate\<close> random in the source: for the single call a request makes,
  any outcome is the outcome of some function, and the theorems hold for every function.
\<close>

type_synonym encoding = "int list list"

record generate_kwargs =
  gen_inputs :: encoding
  gen_max_new_tokens :: "int option"
  gen_temperature :: "real option"
  gen_top_k :: "int option"
  gen_top_p :: "real option"
  gen_do_sample :: bool
  gen_repetition_penalty :: "real option"
  gen_no_repeat_ngram_size :: int
  gen_eos_token_id :: "int option"
  gen_pad_token_id :: "int option"

record tokenizer_obj =
  tk_encode :: "pystr \<Rightarrow> encoding result"
  tk_to :: "encoding \<Rightarrow> pystr \<Rightarrow> encoding result"
  tk_decode :: "int list \<Rightarrow> pystr result"
  eos_token_id :: "int option"
  pad_token_id :: "int option"

record model_obj =
  m_generate :: "generate_kwargs \<Rightarrow> int list list result"

text \<open>The calls a handler makes into the tokenizer and the model, in order.\<close>

datatype runtime_call =
  Tokenize pystr
  | ToDevice encoding pystr
  | Generate generate_kwargs
  | Decode "int list"

text \<open>
  The module's globals \<open>model\<close> and \<open>tokenizer\<close> (lines 21 and 22), with the trace of
  runtime calls made so far, which lets a theorem say that the runtime was not invoked.
\<close>

record server =
  model :: "model_obj option"
  tokenizer :: "tokenizer_obj option"
  calls :: "runtime_call list"

definition initial_server :: server where
  "initial_server = \<lparr>model = None, tokenizer = None, calls = []\<rparr>"

definition MODEL_PATH :: pystr where
  "MODEL_PATH = ascii ''./gemma2-finetuned''"

definition device :: pystr where
  "device = ascii ''cpu''"

text \<open>
  \<open>QuestionRequest\<close> (lines 28 to 34). Every generation field is \<open>Optional\<close>, so its value
  may be \<open>None\<close>; floats stand for the decimal the source writes, no claim computes with
  them.
\<close>

record question_request =
  question :: pystr
  max_tokens :: "int option"
  temperature :: "real option"
  top_k :: "int option"
  top_p :: "real option"
  repetition_penalty :: "real option"

text \<open>
  The JSON body of a request: a field is omitted (\<open>None\<close>) or supplied, and a supplied
  optional field may be null. The class declares no validator and no bound.
\<close>

record request_body =
  body_question :: pystr
  body_max_tokens :: "int option option"
  body_temperature :: "real option option"
  body_top_k :: "int option option"
  body_top_p :: "real option option"
  body_repetition_penalty :: "real option option"

definition or_default :: "'a option \<Rightarrow> 'a \<Rightarrow> 'a" where
  "or_default supplied d = (case supplied of None \<Rightarrow> d | Some v \<Rightarrow> v)"

definition QuestionRequest :: "request_body \<Rightarrow> question_request" where
  "QuestionRequest b =
     \<lparr>question = body_question b,
      max_tokens = or_default (body_max_tokens b) (Some 120),
      temperature = or_default (body_temperature b) (Some 0.3),
      top_k = or_default (body_top_k b) (Some 40),
      top_p = or_default (body_top_p b) (Some 0.8),
      repetition_penalty = or_default (body_repetition_penalty b) (Some 1.8)\<rparr>"

record answer_response =
  ar_question :: pystr
  ar_answer :: pystr
  ar_full_output :: pystr
  ar_model_path :: pystr
  ar_device :: pystr

record health_response =
  status :: pystr
  model_loaded :: bool
  hr_device :: pystr

text \<open>What a handler does: it returns its response model or raises \<open>HTTPException\<close>.\<close>

datatype 'a http_result =
  Returned 'a
  | HTTPException (status_code: nat) (detail: pystr)

section \<open>Loading the model at startup\<close>

text \<open>
  The loaders \<open>load_model\<close> calls (lines 61 to 117), each returning its object or raising:
  the imports, the base model (with the token and the cache directory read from the
  environment), the adapter on top of it, the tokenizer, and the model's \<open>to\<close> and \<open>eval\<close>.
\<close>

record loaders =
  import_peft :: "unit result"
  base_from_pretrained :: "pystr option \<Rightarrow> pystr \<Rightarrow> model_obj result"
  peft_from_pretrained :: "model_obj \<Rightarrow> pystr \<Rightarrow> model_obj result"
  tokenizer_from_pretrained :: "pystr option \<Rightarrow> pystr \<Rightarrow> tokenizer_obj result"
  model_to :: "model_obj \<Rightarrow> pystr \<Rightarrow> model_obj result"
  model_eval :: "model_obj \<Rightarrow> unit result"

definition HF_TOKEN :: pystr where
  "HF_TOKEN = ascii ''HF_TOKEN''"

definition HF_HOME :: pystr where
  "HF_HOME = ascii ''HF_HOME''"

definition default_cache_dir :: pystr where
  "default_cache_dir = ascii ''/tmp/hf_cache''"

text \<open>
  \<open>load_model\<close>: the handler prints and re-raises, so the exception is the result, and the
  globals keep what was assigned before the raise. The global \<open>model\<close> is assigned when
  the adapter is loaded (line 99), before the tokenizer is (line 106).
\<close>

definition load_model :: "loaders \<Rightarrow> (pystr \<rightharpoonup> pystr) \<Rightarrow> server \<Rightarrow> unit result \<times> server" where
  "load_model lib environ s =
     (case import_peft lib of Inl e \<Rightarrow> (Inl e, s) | Inr _ \<Rightarrow>
      let hf_token = environ HF_TOKEN;
          cache_dir = or_default (environ HF_HOME) default_cache_dir
      in
      case base_from_pretrained lib hf_token cache_dir of Inl e \<Rightarrow> (Inl e, s) | Inr base_model \<Rightarrow>
      case peft_from_pretrained lib base_model MODEL_PATH of Inl e \<Rightarrow> (Inl e, s) | Inr m \<Rightarrow>
      let s1 = s\<lparr>model := Some m\<rparr> in
      case tokenizer_from_pretrained lib hf_token cache_dir of Inl e \<Rightarrow> (Inl e, s1) | Inr tk \<Rightarrow>
      let s2 = s1\<lparr>tokenizer := Some tk\<rparr> in
      case model_to lib m device of Inl e \<Rightarrow> (Inl e, s2) | Inr m' \<Rightarrow>
      let s3 = s2\<lparr>model := Some m'\<rparr> in
      case model_eval lib m' of Inl e \<Rightarrow> (Inl e, s3) | Inr _ \<Rightarrow> (Inr (), s3))"

section \<open>The endpoints\<close>

definition healthy :: pystr where
  "healthy = ascii ''healthy''"

definition model_not_loaded :: pystr where
  "model_not_loaded = ascii ''model_not_loaded''"

text \<open>\<open>health_check\<close> (lines 147 to 153) reads the global \<open>model\<close> only.\<close>

definition health_check :: "server \<Rightarrow> health_response" where
  "health_check s =
     \<lparr>status = (if model s \<noteq> None then healthy else model_not_loaded),
      model_loaded = (model s \<noteq> None),
      hr_device = device\<rparr>"

text \<open>
  The literals of \<open>predict\<close>: the prompt's prefix (the question marker and a space) and
  suffix (a newline and the answer marker), the detail of the 503 and the prefix of the
  detail of the 500.
\<close>

definition prompt_prefix :: pystr where
  "prompt_prefix = [51656, 47928, 58, 32]"

definition prompt_suffix :: pystr where
  "prompt_suffix = [10, 45813, 48320, 58]"

definition not_loaded_detail :: pystr where
  "not_loaded_detail =
     [47784, 45944, 51060, 32, 47196, 46300, 46104, 51648, 32, 50506, 50520, 49845, 45768,
      45796]"

definition error_prefix :: pystr where
  "error_prefix =
     [45813, 48320, 32, 49373, 49457, 32, 51473, 32, 50724, 47448, 32, 48156, 49373, 58, 32]"

text \<open>Line 172: the prompt.\<close>

definition prompt_of :: "question_request \<Rightarrow> pystr" where
  "prompt_of request = prompt_prefix @ question request @ prompt_suffix"

text \<open>Lines 180 to 191: the keyword arguments of \<open>model.generate\<close>.\<close>

definition generate_args :: "tokenizer_obj \<Rightarrow> question_request \<Rightarrow> encoding \<Rightarrow> generate_kwargs" where
  "generate_args tk request inputs =
     \<lparr>gen_inputs = inputs,
      gen_max_new_tokens = max_tokens request,
      gen_temperature = temperature request,
      gen_top_k = top_k request,
      gen_top_p = top_p request,
      gen_do_sample = True,
      gen_repetition_penalty = repetition_penalty request,
      gen_no_repeat_ngram_size = 4,
      gen_eos_token_id = eos_token_id tk,
      gen_pad_token_id = pad_token_id tk\<rparr>"

text \<open>
  Lines 171 to 215: the body of the \<open>try\<close>. It returns the response or the exception
  that left it, with the runtime calls made until then.
\<close>

definition predict_body ::
  "model_obj \<Rightarrow> tokenizer_obj \<Rightarrow> question_request \<Rightarrow> runtime_call list
     \<Rightarrow> answer_response result \<times> runtime_call list" where
  "predict_body m tk request cs =
     (let prompt = prompt_of request;
          cs1 = cs @ [Tokenize prompt]
      in
      case tk_encode tk prompt of Inl e \<Rightarrow> (Inl e, cs1) | Inr inputs0 \<Rightarrow>
      let cs2 = cs1 @ [ToDevice inputs0 device] in
      case tk_to tk inputs0 device of Inl e \<Rightarrow> (Inl e, cs2) | Inr inputs \<Rightarrow>
      let cs3 = cs2 @ [Generate (generate_args tk request inputs)] in
      case m_generate m (generate_args tk request inputs) of Inl e \<Rightarrow> (Inl e, cs3) | Inr outputs \<Rightarrow>
      case py_index outputs 0 of Inl e \<Rightarrow> (Inl e, cs3) | Inr output0 \<Rightarrow>
      let cs4 = cs3 @ [Decode output0] in
      case tk_decode tk output0 of Inl e \<Rightarrow> (Inl e, cs4) | Inr full_output \<Rightarrow>
      case extract_answer full_output of Inl e \<Rightarrow> (Inl e, cs4) | Inr answer_only \<Rightarrow>
      (Inr \<lparr>ar_question = question request,
            ar_answer = answer_only,
            ar_full_output = full_output,
            ar_model_path = MODEL_PATH,
            ar_device = device\<rparr>, cs4))"

text \<open>
  \<open>predict\<close> (lines 156 to 218): the guard on the two globals, then the \<open>try\<close> whose
  handler turns every exception into a 500 carrying its message.
\<close>

definition predict :: "server \<Rightarrow> question_request \<Rightarrow> answer_response http_result \<times> server" where
  "predict s request =
     (if model s = None \<or> tokenizer s = None
      then (HTTPException 503 not_loaded_detail, s)
      else
        (case predict_body (the (model s)) (the (tokenizer s)) request (calls s) of
           (Inr response, cs) \<Rightarrow> (Returned response, s\<lparr>calls := cs\<rparr>)
         | (Inl e, cs) \<Rightarrow> (HTTPException 500 (error_prefix @ message e), s\<lparr>calls := cs\<rparr>)))"

text \<open>
  \<open>POST /predict\<close>: the framework builds the \<open>QuestionRequest\<close> from the body and calls
  the handler with it.
\<close>

definition post_predict :: "server \<Rightarrow> request_body \<Rightarrow> answer_response http_result \<times> server" where
  "post_predict s body = predict s (QuestionRequest body)"

section \<open>A concrete runtime\<close>

text \<open>
  Objects to run the handlers on: a tokenizer whose token ids are the code points, a model
  that echoes the prompt and appends \<open>" ok"\<close>, a model whose \<open>generate\<close> raises, and
  loaders of which the tokenizer's raises.
\<close>

definition demo_tokenizer :: tokenizer_obj where
  "demo_tokenizer =
     \<lparr>tk_encode = (\<lambda>prompt. Inr [map int prompt]),
      tk_to = (\<lambda>inputs d. Inr inputs),
      tk_decode = (\<lambda>ids. Inr (map nat ids)),
      eos_token_id = Some 1,
      pad_token_id = Some 0\<rparr>"

definition demo_model :: model_obj where
  "demo_model = \<lparr>m_generate = (\<lambda>kw. Inr (map (\<lambda>row. row @ [32, 111, 107]) (gen_inputs kw)))\<rparr>"

definition failing_model :: model_obj where
  "failing_model = \<lparr>m_generate = (\<lambda>kw. Inl (PyException [111, 111, 109]))\<rparr>"

definition demo_loaders :: loaders where
  "demo_loaders =
     \<lparr>import_peft = Inr (),
      base_from_pretrained = (\<lambda>token cache_dir. Inr demo_model),
      peft_from_pretrained = (\<lambda>base_model path. Inr base_model),
      tokenizer_from_pretrained = (\<lambda>token cache_dir. Inl (PyException [52, 48, 49])),
      model_to = (\<lambda>m d. Inr m),
      model_eval = (\<lambda>m. Inr ())\<rparr>"

section \<open>Searching and splitting\<close>

lemma py_in_iff: "py_in sub s \<longleftrightarrow> (\<exists>p q. s = p @ sub @ q)"
proof (induction s)
  case Nil
  then show ?case by auto
next
  case (Cons c cs)
  show ?case
  proof
    assume "py_in sub (c # cs)"
    then consider "prefix sub (c # cs)" | "py_in sub cs" by auto
    then show "\<exists>p q. c # cs = p @ sub @ q"
    proof cases
      case 1
      then obtain q where "c # cs = sub @ q" by (auto simp: prefix_def)
      then have "c # cs = [] @ sub @ q" by simp
      then show ?thesis by blast
    next
      case 2
      with Cons.IH obtain p q where "cs = p @ sub @ q" by blast
      then have "c # cs = (c # p) @ sub @ q" by simp
      then show ?thesis by blast
    qed
  next
    assume "\<exists>p q. c # cs = p @ sub @ q"
    then obtain p q where pq: "c # cs = p @ sub @ q" by blast
    show "py_in sub (c # cs)"
    proof (cases p)
      case Nil
      with pq have "prefix sub (c # cs)" by (simp add: prefix_def)
      then show ?thesis by simp
    next
      case (Cons a p')
      with pq have "cs = p' @ sub @ q" by simp
      with Cons.IH have "py_in sub cs" by blast
      then show ?thesis by simp
    qed
  qed
qed

lemma py_in_single: "py_in [c] s \<longleftrightarrow> c \<in> set s"
  by (induction s) auto

lemma find_first_iff: "find_first sep s = Some i \<longleftrightarrow> first_at sep s i"
proof (induction s arbitrary: i)
  case Nil
  then show ?case by (auto simp: first_at_def)
next
  case (Cons c cs)
  show ?case
  proof (cases "prefix sep (c # cs)")
    case True
    have "first_at sep (c # cs) i \<longleftrightarrow> i = 0"
    proof
      assume a: "first_at sep (c # cs) i"
      show "i = 0"
      proof (rule ccontr)
        assume "i \<noteq> 0"
        then have "0 < i" by simp
        with a have "\<not> prefix sep (drop 0 (c # cs))" unfolding first_at_def by blast
        with True show False by simp
      qed
    next
      assume "i = 0"
      with True show "first_at sep (c # cs) i" by (simp add: first_at_def)
    qed
    with True show ?thesis by auto
  next
    case False
    have shift: "first_at sep (c # cs) i \<longleftrightarrow> (\<exists>k. i = Suc k \<and> first_at sep cs k)"
    proof
      assume a: "first_at sep (c # cs) i"
      have "i \<noteq> 0"
      proof
        assume "i = 0"
        with a have "prefix sep (c # cs)" by (simp add: first_at_def)
        with False show False by simp
      qed
      then obtain k where k: "i = Suc k" by (cases i) auto
      have "\<forall>j<k. \<not> prefix sep (drop j cs)"
      proof (intro allI impI)
        fix j assume "j < k"
        then have "Suc j < i" using k by simp
        with a have "\<not> prefix sep (drop (Suc j) (c # cs))" unfolding first_at_def by blast
        then show "\<not> prefix sep (drop j cs)" by simp
      qed
      with a k have "first_at sep cs k" by (simp add: first_at_def)
      with k show "\<exists>k. i = Suc k \<and> first_at sep cs k" by blast
    next
      assume "\<exists>k. i = Suc k \<and> first_at sep cs k"
      then obtain k where k: "i = Suc k" and f: "first_at sep cs k" by blast
      have "\<forall>j<Suc k. \<not> prefix sep (drop j (c # cs))"
      proof (intro allI impI)
        fix j assume j: "j < Suc k"
        show "\<not> prefix sep (drop j (c # cs))"
        proof (cases j)
          case 0
          with False show ?thesis by simp
        next
          case (Suc j')
          with j have "j' < k" by simp
          with f have "\<not> prefix sep (drop j' cs)" unfolding first_at_def by blast
          with Suc show ?thesis by simp
        qed
      qed
      with f k show "first_at sep (c # cs) i" by (simp add: first_at_def)
    qed
    from False have "find_first sep (c # cs) = Some i
        \<longleftrightarrow> (\<exists>k. i = Suc k \<and> find_first sep cs = Some k)"
      by auto
    with Cons.IH shift show ?thesis by simp
  qed
qed

lemma find_first_None_iff: "find_first sep s = None \<longleftrightarrow> \<not> py_in sep s"
  by (induction s) auto

lemma first_at_py_in: "first_at sep s i \<Longrightarrow> py_in sep s"
  using find_first_iff [of sep s i] find_first_None_iff [of sep s] by auto

lemma split_part_after:
  assumes "sep \<noteq> []" and "first_at sep s i"
  shows "split_part sep 1 s = Inr (drop (i + length sep) s)"
  using assms find_first_iff [of sep s i]
  by (simp add: split_part_def py_split1_def py_index_def bind_exn_def)

lemma split_part_before:
  assumes "sep \<noteq> []" and "first_at sep s i"
  shows "split_part sep 0 s = Inr (take i s)"
  using assms find_first_iff [of sep s i]
  by (simp add: split_part_def py_split1_def py_index_def bind_exn_def)


section \<open>Stripping\<close>


text \<open>
  \<open>strip\<close> keeps a contiguous part of the string, and around a separator that neither
  starts nor ends with whitespace it only touches what stands before and after.
\<close>

lemma lstrip_suffix: "\<exists>p. s = p @ lstrip s"
proof -
  have "s = takeWhile is_space s @ lstrip s" by (simp add: lstrip_def)
  then show ?thesis by blast
qed

lemma rstrip_prefix: "\<exists>q. s = rstrip s @ q"
proof -
  have "rev (dropWhile is_space (rev s)) @ rev (takeWhile is_space (rev s))
      = rev (takeWhile is_space (rev s) @ dropWhile is_space (rev s))"
    by (simp only: rev_append)
  also have "\<dots> = s" by (simp only: takeWhile_dropWhile_id rev_rev_ident)
  finally have "s = rstrip s @ rev (takeWhile is_space (rev s))"
    by (simp add: rstrip_def)
  then show ?thesis by blast
qed

lemma strip_infix: "\<exists>p q. s = p @ strip s @ q"
proof -
  obtain p where p: "s = p @ lstrip s" using lstrip_suffix by blast
  obtain q where q: "lstrip s = rstrip (lstrip s) @ q" using rstrip_prefix by blast
  from p q have "s = p @ strip s @ q" by (simp add: strip_def)
  then show ?thesis by blast
qed

lemma set_strip: "set (strip s) \<subseteq> set s"
proof -
  obtain p q where "s = p @ strip s @ q" using strip_infix by blast
  then have "set s = set p \<union> set (strip s) \<union> set q" by (metis set_append sup_assoc)
  then show ?thesis by blast
qed

lemma py_in_strip: "py_in sub (strip s) \<Longrightarrow> py_in sub s"
proof -
  assume "py_in sub (strip s)"
  then obtain a b where ab: "strip s = a @ sub @ b" unfolding py_in_iff by blast
  obtain p q where "s = p @ strip s @ q" using strip_infix by blast
  with ab have "s = (p @ a) @ sub @ (b @ q)" by simp
  then show ?thesis unfolding py_in_iff by blast
qed

lemma lstrip_idem: "lstrip (lstrip s) = lstrip s"
  by (simp add: lstrip_def)

lemma strip_lstrip: "strip (lstrip s) = strip s"
  by (simp add: strip_def lstrip_idem)

lemma lstrip_before:
  assumes "sep \<noteq> []" and "\<not> is_space (hd sep)"
  shows "lstrip (X @ sep @ Y) = lstrip X @ sep @ Y"
proof -
  from assms obtain c cs where sep: "sep = c # cs" and c: "\<not> is_space c"
    by (cases sep) auto
  show ?thesis
  proof (cases "\<forall>x\<in>set X. is_space x")
    case True
    then have "dropWhile is_space X = []" by simp
    with True sep c show ?thesis by (simp add: lstrip_def dropWhile_append)
  next
    case False
    then show ?thesis by (auto simp: lstrip_def dropWhile_append)
  qed
qed

lemma rstrip_after:
  assumes "sep \<noteq> []" and "\<not> is_space (last sep)"
  shows "rstrip (X @ sep @ Y) = X @ sep @ rstrip Y"
proof -
  from assms have h: "rev sep \<noteq> []" "\<not> is_space (hd (rev sep))"
    by (simp_all add: hd_rev)
  have "dropWhile is_space (rev Y @ rev sep @ rev X)
      = dropWhile is_space (rev Y) @ rev sep @ rev X"
    using lstrip_before [OF h, of "rev Y" "rev X"] by (simp add: lstrip_def)
  then show ?thesis by (simp add: rstrip_def)
qed

lemma strip_around:
  assumes "sep \<noteq> []" and "\<not> is_space (hd sep)" and "\<not> is_space (last sep)"
  shows "strip (X @ sep @ Y) = lstrip X @ sep @ rstrip Y"
  using assms by (simp add: strip_def lstrip_before rstrip_after)

lemma first_at_inner:
  assumes f: "first_at sep (P @ X @ sep @ Y @ Z) (length (P @ X))"
  shows "first_at sep (X @ sep @ Y) (length X)"
proof -
  have "\<forall>j<length X. \<not> prefix sep (drop j (X @ sep @ Y))"
  proof (intro allI impI notI)
    fix j assume j: "j < length X" and pre: "prefix sep (drop j (X @ sep @ Y))"
    from pre have "prefix sep (drop j (X @ sep @ Y) @ Z)"
      by (metis prefix_prefix)
    moreover from j have "drop (length P + j) (P @ X @ sep @ Y @ Z) = drop j (X @ sep @ Y) @ Z"
      by simp
    moreover from j have "length P + j < length (P @ X)" by simp
    ultimately show False using f unfolding first_at_def by metis
  qed
  then show ?thesis by (simp add: first_at_def)
qed

lemma first_at_strip:
  assumes "sep \<noteq> []" and "\<not> is_space (hd sep)" and "\<not> is_space (last sep)"
    and f: "first_at sep (X @ sep @ Y) (length X)"
  shows "first_at sep (strip (X @ sep @ Y)) (length (lstrip X))"
proof -
  define L where "L = lstrip X"
  define R where "R = rstrip Y"
  obtain P where P: "X = P @ L" unfolding L_def using lstrip_suffix by blast
  obtain Z where Z: "Y = R @ Z" unfolding R_def using rstrip_prefix by blast
  from f have "first_at sep (P @ L @ sep @ R @ Z) (length (P @ L))"
    unfolding P Z by simp
  then have "first_at sep (L @ sep @ R) (length L)"
    by (rule first_at_inner)
  then have "first_at sep (lstrip X @ sep @ rstrip Y) (length (lstrip X))"
    by (simp add: L_def R_def)
  with assms show ?thesis by (simp add: strip_around)
qed


lemma find_first_single: "c \<notin> set X \<Longrightarrow> find_first [c] (X @ c # Y) = Some (length X)"
  by (induction X) auto

lemma first_at_single: "c \<notin> set X \<Longrightarrow> first_at [c] (X @ [c] @ Y) (length X)"
  using find_first_single [of c X Y] by (simp add: find_first_iff)

text \<open>The steps of the extractor, one at a time.\<close>

lemma answer_marker_shape:
  "answer_marker \<noteq> []" "\<not> is_space (hd answer_marker)" "\<not> is_space (last answer_marker)"
  "length answer_marker = 3"
  by (simp_all add: answer_marker_def is_space_def)

lemma question_marker_shape:
  "question_marker \<noteq> []" "\<not> is_space (hd question_marker)"
  "\<not> is_space (last question_marker)"
  by (simp_all add: question_marker_def is_space_def)

lemma lt_char_shape: "\<not> is_space lt_char"
  by (simp add: lt_char_def is_space_def)

lemma after_answer:
  assumes "t = P @ answer_marker @ C" and "first_at answer_marker t (length P)"
  shows "py_in answer_marker t" and "split_part answer_marker (Suc 0) t = Inr C"
proof -
  from assms(2) show "py_in answer_marker t" by (rule first_at_py_in)
  from split_part_after [OF answer_marker_shape(1) assms(2)] assms(1)
  show "split_part answer_marker (Suc 0) t = Inr C" by simp
qed

lemma before_question:
  assumes "first_at question_marker (X @ question_marker @ Y) (length X)"
  shows "py_in question_marker (strip (X @ question_marker @ Y))"
    and "split_part question_marker 0 (strip (X @ question_marker @ Y)) = Inr (lstrip X)"
proof -
  have f: "first_at question_marker (strip (X @ question_marker @ Y)) (length (lstrip X))"
    using first_at_strip [OF question_marker_shape assms] .
  then show "py_in question_marker (strip (X @ question_marker @ Y))"
    by (rule first_at_py_in)
  have "strip (X @ question_marker @ Y) = lstrip X @ question_marker @ rstrip Y"
    by (rule strip_around [OF question_marker_shape])
  then have "take (length (lstrip X)) (strip (X @ question_marker @ Y)) = lstrip X"
    by simp
  with split_part_before [OF question_marker_shape(1) f]
  show "split_part question_marker 0 (strip (X @ question_marker @ Y)) = Inr (lstrip X)"
    by simp
qed

lemma before_lt:
  assumes "lt_char \<notin> set X"
  shows "py_in [lt_char] (strip (X @ [lt_char] @ Y))"
    and "split_part [lt_char] 0 (strip (X @ [lt_char] @ Y)) = Inr (lstrip X)"
proof -
  have s: "strip (X @ [lt_char] @ Y) = lstrip X @ [lt_char] @ rstrip Y"
    by (rule strip_around) (simp_all add: lt_char_shape)
  obtain p where "X = p @ lstrip X" using lstrip_suffix by blast
  then have "set (lstrip X) \<subseteq> set X" by (metis set_append Un_upper2)
  with assms have "lt_char \<notin> set (lstrip X)" by blast
  then have f: "first_at [lt_char] (lstrip X @ [lt_char] @ rstrip Y) (length (lstrip X))"
    by (rule first_at_single)
  with s show "py_in [lt_char] (strip (X @ [lt_char] @ Y))"
    by (simp add: first_at_py_in)
  from split_part_before [OF _ f] s
  show "split_part [lt_char] 0 (strip (X @ [lt_char] @ Y)) = Inr (lstrip X)"
    by simp
qed

lemma no_lt_strip: "lt_char \<notin> set s \<Longrightarrow> \<not> py_in [lt_char] (strip s)"
  using set_strip [of s] by (auto simp: py_in_single)

lemmas string_eval = strip_def lstrip_def rstrip_def is_space_def answer_marker_def
  question_marker_def lt_char_def

lemmas extract_eval = extract_answer_def split_part_def py_split1_def py_index_def bind_exn_def

lemma extract_before_question:
  assumes "t = P @ answer_marker @ X @ question_marker @ Y"
    and "first_at answer_marker t (length P)"
    and "first_at question_marker (X @ question_marker @ Y) (length X)"
    and "lt_char \<notin> set X"
  shows "extract_answer t = Inr (strip X)"
proof -
  note a = after_answer [OF assms(1,2)]
  note q = before_question [OF assms(3)]
  from assms(4) have l: "\<not> py_in [lt_char] (strip X)" by (rule no_lt_strip)
  show ?thesis by (simp add: extract_answer_def a q l bind_exn_def strip_lstrip)
qed

text \<open>
  The extractor itself never raises: each subscript of a split is taken under the test
  that makes it exist.
\<close>

lemma bind_exn_Inr: "bind_exn (Inr v) f = f v"
  by (simp add: bind_exn_def)

lemma truncate_total:
  assumes "sep \<noteq> []"
  shows "\<exists>a. (if py_in sep u then bind_exn (split_part sep 0 u) (\<lambda>q. Inr (strip q)) else Inr u)
    = Inr a"
  using assms
  by (simp add: split_part_def py_split1_def py_index_def bind_exn_def split: option.splits)

lemma extract_answer_total: "\<exists>a. extract_answer t = Inr a"
proof (cases "py_in answer_marker t")
  case False
  then show ?thesis by (simp add: extract_answer_def)
next
  case True
  then obtain i where i: "find_first answer_marker t = Some i"
    using find_first_None_iff [of answer_marker t] by auto
  define p where "p = drop (i + length answer_marker) t"
  have a: "split_part answer_marker 1 t = Inr p"
    using i by (simp add: split_part_def py_split1_def py_index_def bind_exn_def
        answer_marker_def p_def)
  obtain a1 where a1: "(if py_in question_marker (strip p)
      then bind_exn (split_part question_marker 0 (strip p)) (\<lambda>q. Inr (strip q))
      else Inr (strip p)) = Inr a1"
    using truncate_total [of question_marker "strip p"] by (auto simp: question_marker_def)
  obtain a2 where a2: "(if py_in [lt_char] a1
      then bind_exn (split_part [lt_char] 0 a1) (\<lambda>r. Inr (strip r))
      else Inr a1) = Inr a2"
    using truncate_total [of "[lt_char]" a1] by auto
  have "extract_answer t = Inr a2"
    by (simp only: extract_answer_def True if_True a bind_exn_Inr a1 a2)
  then show ?thesis by blast
qed

lemmas demo_eval = demo_tokenizer_def demo_model_def failing_model_def prompt_of_def
  prompt_prefix_def prompt_suffix_def generate_args_def QuestionRequest_def or_default_def

lemma predict_loaded:
  assumes "model s = Some m" and "tokenizer s = Some tk"
  shows "predict s request =
    (case predict_body m tk request (calls s) of
       (Inr response, cs) \<Rightarrow> (Returned response, s\<lparr>calls := cs\<rparr>)
     | (Inl e, cs) \<Rightarrow> (HTTPException 500 (error_prefix @ message e), s\<lparr>calls := cs\<rparr>))"
  using assms by (simp add: predict_def)

section \<open>The claims\<close>

text \<open>
  Claim C1. While \<open>model\<close> or \<open>tokenizer\<close> is still \<open>None\<close>, every request to
  \<open>POST /predict\<close> is answered by the 503 of the guard, and nothing else happens: the
  server is returned as it was, so no call into the tokenizer or the model was added to
  its trace. The guard stands before the prompt is built (line 172).
\<close>

theorem predict_not_loaded_503:
  assumes "model s = None \<or> tokenizer s = None"
  shows "predict s request = (HTTPException 503 not_loaded_detail, s) \<and>
    post_predict s body = (HTTPException 503 not_loaded_detail, s) \<and>
    calls (snd (post_predict s body)) = calls s"
  using assms by (simp add: predict_def post_predict_def)

theorem predict_not_loaded_503_witness:
  "model initial_server = None \<and>
   post_predict initial_server
     \<lparr>body_question =
        [50724, 45813, 45432, 53944, 45716, 32, 50612, 46523, 44172, 32, 51221, 47532, 54624,
         44620, 50836, 63],
      body_max_tokens = None, body_temperature = None, body_top_k = None, body_top_p = None,
      body_repetition_penalty = None\<rparr>
   = (HTTPException 503 not_loaded_detail, initial_server) \<and>
   calls initial_server = []"
proof -
  have h: "model initial_server = None \<or> tokenizer initial_server = None"
    by (simp add: initial_server_def)
  from predict_not_loaded_503 [OF h] show ?thesis by (simp add: initial_server_def)
qed

text \<open>
  Claim C2. Let the answer marker occur in the text, first at the end of \<open>P\<close>, and let \<open>C\<close>
  be what follows that occurrence. If \<open>C\<close> contains neither the question marker nor the
  character \<open><\<close>, the extractor returns \<open>C\<close> with the whitespace at both ends removed.
\<close>

theorem extract_plain_answer:
  assumes "t = P @ answer_marker @ C"
    and "first_at answer_marker t (length P)"
    and "\<not> py_in question_marker C"
    and "lt_char \<notin> set C"
  shows "extract_answer t = Inr (strip C)"
proof -
  note a = after_answer [OF assms(1,2)]
  from assms(3) have q: "\<not> py_in question_marker (strip C)" using py_in_strip by blast
  from assms(4) have l: "\<not> py_in [lt_char] (strip C)" by (rule no_lt_strip)
  show ?thesis by (simp add: extract_answer_def a q l bind_exn_def)
qed

theorem extract_plain_answer_witness:
  "first_at answer_marker
     [51656, 47928, 58, 32, 104, 105, 10, 45813, 48320, 58, 32, 111, 107, 32]
     (length [51656, 47928, 58, 32, 104, 105, 10 :: nat]) \<and>
   \<not> py_in question_marker [32, 111, 107, 32] \<and>
   lt_char \<notin> set [32, 111, 107, 32] \<and>
   extract_answer [51656, 47928, 58, 32, 104, 105, 10, 45813, 48320, 58, 32, 111, 107, 32]
     = Inr [111, 107]"
proof -
  let ?P = "[51656, 47928, 58, 32, 104, 105, 10] :: pystr"
  let ?C = "[32, 111, 107, 32] :: pystr"
  let ?t = "[51656, 47928, 58, 32, 104, 105, 10, 45813, 48320, 58, 32, 111, 107, 32] :: pystr"
  have h1: "?t = ?P @ answer_marker @ ?C" by (simp add: answer_marker_def)
  have h2: "first_at answer_marker ?t (length ?P)"
    by (simp add: find_first_iff [symmetric] answer_marker_def)
  have h3: "\<not> py_in question_marker ?C" by (simp add: question_marker_def)
  have h4: "lt_char \<notin> set ?C" by (simp add: lt_char_def)
  have "strip ?C = [111, 107]" by (simp add: string_eval)
  with extract_plain_answer [OF h1 h2 h3 h4] h2 h3 h4 show ?thesis by simp
qed

text \<open>
  Claim C3, as stated: whenever the content after the answer marker is \<open>X\<close>, the question
  marker, then \<open>Y\<close>, with that the first question marker, the answer is \<open>X\<close> trimmed. It
  fails when \<open>X\<close> holds a \<open><\<close>: the text is the answer marker followed by
  \<open>" 1 < 2 "\<close>, the question marker and \<open>" ?"\<close>; \<open>X\<close> trimmed is \<open>"1 < 2"\<close>, and the
  extractor, which truncates at \<open><\<close> after it truncated at the question marker, returns
  \<open>"1"\<close>.
\<close>

theorem extract_before_next_question_counterexample:
  "first_at answer_marker
     [45813, 48320, 58, 32, 49, 32, 60, 32, 50, 32, 51656, 47928, 58, 32, 63] 0 \<and>
   first_at question_marker [32, 49, 32, 60, 32, 50, 32, 51656, 47928, 58, 32, 63]
     (length [32, 49, 32, 60, 32, 50, 32 :: nat]) \<and>
   strip [32, 49, 32, 60, 32, 50, 32] = [49, 32, 60, 32, 50] \<and>
   extract_answer [45813, 48320, 58, 32, 49, 32, 60, 32, 50, 32, 51656, 47928, 58, 32, 63]
     = Inr [49] \<and>
   extract_answer [45813, 48320, 58, 32, 49, 32, 60, 32, 50, 32, 51656, 47928, 58, 32, 63]
     \<noteq> Inr (strip [32, 49, 32, 60, 32, 50, 32])"
  by (simp add: find_first_iff [symmetric] extract_answer_def split_part_def py_split1_def
      py_index_def bind_exn_def string_eval)

text \<open>
  Claim C3, amended. Let the content after the first answer marker be \<open>X\<close>, the question
  marker, then \<open>Y\<close>, where this is the first question marker of the content and \<open>X\<close>
  holds no \<open><\<close>. Then the extractor returns \<open>X\<close> trimmed. In particular, on the decoded
  text of the scenario (a question line, then the answer marker, a sentence, the question
  marker and a follow-up) the answer is the sentence.
\<close>

theorem extract_before_next_question:
  assumes "t = P @ answer_marker @ X @ question_marker @ Y"
    and "first_at answer_marker t (length P)"
    and "first_at question_marker (X @ question_marker @ Y) (length X)"
    and "lt_char \<notin> set X"
  shows "extract_answer t = Inr (strip X) \<and>
    extract_answer
     [51656, 47928, 58, 32, 50724, 45813, 45432, 53944, 45716, 32, 50612, 46523, 44172, 32,
      51221, 47532, 54624, 44620, 50836, 63, 10, 45813, 48320, 58, 32, 47588, 51068, 32,
      48373, 49845, 54616, 49464, 50836, 46, 32, 51656, 47928, 58, 32, 45796, 51020, 51008, 63]
    = Inr [47588, 51068, 32, 48373, 49845, 54616, 49464, 50836, 46]"
proof
  show "extract_answer t = Inr (strip X)"
    using assms by (rule extract_before_question)
  show "extract_answer
     [51656, 47928, 58, 32, 50724, 45813, 45432, 53944, 45716, 32, 50612, 46523, 44172, 32,
      51221, 47532, 54624, 44620, 50836, 63, 10, 45813, 48320, 58, 32, 47588, 51068, 32,
      48373, 49845, 54616, 49464, 50836, 46, 32, 51656, 47928, 58, 32, 45796, 51020, 51008, 63]
    = Inr [47588, 51068, 32, 48373, 49845, 54616, 49464, 50836, 46]"
    by (simp add: extract_eval string_eval)
qed

theorem extract_before_next_question_witness:
  "first_at answer_marker
     [51656, 47928, 58, 32, 50724, 45813, 45432, 53944, 45716, 32, 50612, 46523, 44172, 32,
      51221, 47532, 54624, 44620, 50836, 63, 10, 45813, 48320, 58, 32, 47588, 51068, 32,
      48373, 49845, 54616, 49464, 50836, 46, 32, 51656, 47928, 58, 32, 45796, 51020, 51008, 63]
     (length
     [51656, 47928, 58, 32, 50724, 45813, 45432, 53944, 45716, 32, 50612, 46523, 44172, 32,
      51221, 47532, 54624, 44620, 50836, 63, 10 :: nat]) \<and>
   first_at question_marker
     [32, 47588, 51068, 32, 48373, 49845, 54616, 49464, 50836, 46, 32, 51656, 47928, 58, 32,
      45796, 51020, 51008, 63]
     (length [32, 47588, 51068, 32, 48373, 49845, 54616, 49464, 50836, 46, 32 :: nat]) \<and>
   lt_char \<notin> set [32, 47588, 51068, 32, 48373, 49845, 54616, 49464, 50836, 46, 32 :: nat] \<and>
   strip [32, 47588, 51068, 32, 48373, 49845, 54616, 49464, 50836, 46, 32 :: nat]
     = [47588, 51068, 32, 48373, 49845, 54616, 49464, 50836, 46] \<and>
   extract_answer
     [51656, 47928, 58, 32, 50724, 45813, 45432, 53944, 45716, 32, 50612, 46523, 44172, 32,
      51221, 47532, 54624, 44620, 50836, 63, 10, 45813, 48320, 58, 32, 47588, 51068, 32,
      48373, 49845, 54616, 49464, 50836, 46, 32, 51656, 47928, 58, 32, 45796, 51020, 51008, 63]
   = Inr (strip [32, 47588, 51068, 32, 48373, 49845, 54616, 49464, 50836, 46, 32 :: nat])"
proof -
  let ?P = "[51656, 47928, 58, 32, 50724, 45813, 45432, 53944, 45716, 32, 50612, 46523, 44172, 32,
      51221, 47532, 54624, 44620, 50836, 63, 10 :: nat]"
  let ?X = "[32, 47588, 51068, 32, 48373, 49845, 54616, 49464, 50836, 46, 32 :: nat]"
  let ?Y = "[32, 45796, 51020, 51008, 63 :: nat]"
  let ?t = "[51656, 47928, 58, 32, 50724, 45813, 45432, 53944, 45716, 32, 50612, 46523, 44172, 32,
      51221, 47532, 54624, 44620, 50836, 63, 10, 45813, 48320, 58, 32, 47588, 51068, 32,
      48373, 49845, 54616, 49464, 50836, 46, 32, 51656, 47928, 58, 32, 45796, 51020, 51008, 63] :: pystr"
  have h1: "?t = ?P @ answer_marker @ ?X @ question_marker @ ?Y"
    by (simp add: answer_marker_def question_marker_def)
  have h2: "first_at answer_marker ?t (length ?P)"
    by (simp add: find_first_iff [symmetric] answer_marker_def)
  have h3: "first_at question_marker (?X @ question_marker @ ?Y) (length ?X)"
    by (simp add: find_first_iff [symmetric] question_marker_def)
  have h4: "lt_char \<notin> set ?X" by (simp add: lt_char_def)
  have h5: "strip ?X = [47588, 51068, 32, 48373, 49845, 54616, 49464, 50836, 46]"
    by (simp add: string_eval)
  have h6: "?X @ question_marker @ ?Y =
     [32, 47588, 51068, 32, 48373, 49845, 54616, 49464, 50836, 46, 32, 51656, 47928, 58, 32,
      45796, 51020, 51008, 63]"
    by (simp add: question_marker_def)
  from extract_before_next_question [OF h1 h2 h3 h4]
  have "extract_answer ?t = Inr (strip ?X)" by (rule conjunct1)
  with h2 h3 h4 h5 show ?thesis unfolding h6 by simp
qed

text \<open>
  Claim C4. Let \<open>C\<close> be the content after the first answer marker and \<open>C'\<close> that content
  truncated at the question marker: \<open>C\<close> itself when it holds no question marker, else
  what precedes the first one. If \<open>C'\<close> is \<open>X\<close>, then \<open><\<close>, then \<open>Y\<close>, this \<open><\<close> being
  the first of \<open>C'\<close> (the one the extractor truncates at), the extractor returns \<open>X\<close>
  trimmed: the truncation at \<open><\<close> works on the content already truncated at the question
  marker.
\<close>

theorem extract_before_markup:
  assumes "t = P @ answer_marker @ C"
    and "first_at answer_marker t (length P)"
    and "(\<not> py_in question_marker C \<and> C' = C) \<or>
         (\<exists>Z. C = C' @ question_marker @ Z \<and> first_at question_marker C (length C'))"
    and "C' = X @ [lt_char] @ Y"
    and "lt_char \<notin> set X"
  shows "extract_answer t = Inr (strip X)"
proof -
  note a = after_answer [OF assms(1,2)]
  have l: "py_in [lt_char] (strip C')" "split_part [lt_char] 0 (strip C') = Inr (lstrip X)"
    using before_lt [OF assms(5), of Y] assms(4) by simp_all
  from assms(3) show ?thesis
  proof
    assume h: "\<not> py_in question_marker C \<and> C' = C"
    then have q: "\<not> py_in question_marker (strip C')" using py_in_strip by blast
    from h have a': "split_part answer_marker (Suc 0) t = Inr C'" using a(2) by simp
    show ?thesis
      by (simp add: extract_answer_def a(1) a' q l bind_exn_def strip_lstrip)
  next
    assume "\<exists>Z. C = C' @ question_marker @ Z \<and> first_at question_marker C (length C')"
    then obtain Z where C: "C = C' @ question_marker @ Z"
      and f: "first_at question_marker (C' @ question_marker @ Z) (length C')" by auto
    note q = before_question [OF f]
    show ?thesis
      by (simp add: extract_answer_def a C q l bind_exn_def strip_lstrip)
  qed
qed

theorem extract_before_markup_witness:
  "first_at answer_marker
     [113, 10, 45813, 48320, 58, 32, 104, 105, 32, 60, 98, 62, 120, 32, 51656, 47928, 58, 32, 121]
     (length [113, 10 :: nat]) \<and>
   first_at question_marker
     [32, 104, 105, 32, 60, 98, 62, 120, 32, 51656, 47928, 58, 32, 121]
     (length [32, 104, 105, 32, 60, 98, 62, 120, 32 :: nat]) \<and>
   lt_char \<notin> set [32, 104, 105, 32 :: nat] \<and>
   extract_answer
     [113, 10, 45813, 48320, 58, 32, 104, 105, 32, 60, 98, 62, 120, 32, 51656, 47928, 58, 32, 121]
   = Inr [104, 105]"
proof -
  let ?P = "[113, 10 :: nat]"
  let ?C = "[32, 104, 105, 32, 60, 98, 62, 120, 32, 51656, 47928, 58, 32, 121 :: nat]"
  let ?C' = "[32, 104, 105, 32, 60, 98, 62, 120, 32 :: nat]"
  let ?X = "[32, 104, 105, 32 :: nat]"
  let ?Y = "[98, 62, 120, 32 :: nat]"
  let ?t = "[113, 10, 45813, 48320, 58, 32, 104, 105, 32, 60, 98, 62, 120, 32, 51656, 47928,
    58, 32, 121] :: pystr"
  have h1: "?t = ?P @ answer_marker @ ?C" by (simp add: answer_marker_def)
  have h2: "first_at answer_marker ?t (length ?P)"
    by (simp add: find_first_iff [symmetric] answer_marker_def)
  have f: "first_at question_marker ?C (length ?C')"
    by (simp add: find_first_iff [symmetric] question_marker_def)
  have "?C = ?C' @ question_marker @ [32, 121]" by (simp add: question_marker_def)
  with f have h3: "(\<not> py_in question_marker ?C \<and> ?C' = ?C) \<or>
      (\<exists>Z. ?C = ?C' @ question_marker @ Z \<and> first_at question_marker ?C (length ?C'))"
    by blast
  have h4: "?C' = ?X @ [lt_char] @ ?Y" by (simp add: lt_char_def)
  have h5: "lt_char \<notin> set ?X" by (simp add: lt_char_def)
  have "strip ?X = [104, 105]" by (simp add: string_eval)
  with extract_before_markup [OF h1 h2 h3 h4 h5] h2 f h5 show ?thesis by simp
qed

text \<open>
  Claim C5, as stated: without an answer marker the extractor returns the text trimmed.
  It fails on \<open>" a "\<close>: the text has no answer marker, trimmed it is \<open>"a"\<close>, and the
  extractor returns it as it came, spaces included; \<open>strip\<close> is only called under the
  test for the answer marker.
\<close>

theorem extract_without_marker_counterexample:
  "\<not> py_in answer_marker [32, 97, 32] \<and>
   strip [32, 97, 32] = [97] \<and>
   extract_answer [32, 97, 32] = Inr [32, 97, 32] \<and>
   extract_answer [32, 97, 32] \<noteq> Inr (strip [32, 97, 32])"
  by (simp add: extract_answer_def string_eval)

text \<open>
  Claim C5, amended. For every text that does not contain the answer marker, the
  extractor returns the text itself, unchanged: it is neither trimmed nor truncated at a
  question marker or at \<open><\<close>.
\<close>

theorem extract_without_marker:
  assumes "\<not> py_in answer_marker t"
  shows "extract_answer t = Inr t"
  using assms by (simp add: extract_answer_def)

theorem extract_without_marker_witness:
  "\<not> py_in answer_marker [32, 104, 105, 32, 60, 98, 62, 32, 51656, 47928, 58, 32, 120, 32] \<and>
   extract_answer [32, 104, 105, 32, 60, 98, 62, 32, 51656, 47928, 58, 32, 120, 32]
     = Inr [32, 104, 105, 32, 60, 98, 62, 32, 51656, 47928, 58, 32, 120, 32]"
proof -
  have h: "\<not> py_in answer_marker
    [32, 104, 105, 32, 60, 98, 62, 32, 51656, 47928, 58, 32, 120, 32]"
    by (simp add: answer_marker_def)
  from extract_without_marker [OF h] h show ?thesis by simp
qed

text \<open>
  Claim C6. A request that supplies only the question gets \<open>max_tokens = 120\<close>,
  \<open>temperature = 0.3\<close>, \<open>top_k = 40\<close>, \<open>top_p = 0.8\<close> and \<open>repetition_penalty = 1.8\<close>,
  and these are the values handed to \<open>generate\<close>. In every request each field is the
  supplied value if there is one and the default if it was omitted.
\<close>

theorem question_request_defaults:
  "QuestionRequest
     \<lparr>body_question = q, body_max_tokens = None, body_temperature = None, body_top_k = None,
      body_top_p = None, body_repetition_penalty = None\<rparr>
   = \<lparr>question = q, max_tokens = Some 120, temperature = Some 0.3, top_k = Some 40,
      top_p = Some 0.8, repetition_penalty = Some 1.8\<rparr> \<and>
   question (QuestionRequest b) = body_question b \<and>
   max_tokens (QuestionRequest b)
     = (case body_max_tokens b of None \<Rightarrow> Some 120 | Some v \<Rightarrow> v) \<and>
   temperature (QuestionRequest b)
     = (case body_temperature b of None \<Rightarrow> Some 0.3 | Some v \<Rightarrow> v) \<and>
   top_k (QuestionRequest b)
     = (case body_top_k b of None \<Rightarrow> Some 40 | Some v \<Rightarrow> v) \<and>
   top_p (QuestionRequest b)
     = (case body_top_p b of None \<Rightarrow> Some 0.8 | Some v \<Rightarrow> v) \<and>
   repetition_penalty (QuestionRequest b)
     = (case body_repetition_penalty b of None \<Rightarrow> Some 1.8 | Some v \<Rightarrow> v) \<and>
   generate_args tk
     (QuestionRequest
        \<lparr>body_question = q, body_max_tokens = None, body_temperature = None,
         body_top_k = None, body_top_p = None, body_repetition_penalty = None\<rparr>) inputs
   = \<lparr>gen_inputs = inputs, gen_max_new_tokens = Some 120, gen_temperature = Some 0.3,
      gen_top_k = Some 40, gen_top_p = Some 0.8, gen_do_sample = True,
      gen_repetition_penalty = Some 1.8, gen_no_repeat_ngram_size = 4,
      gen_eos_token_id = eos_token_id tk, gen_pad_token_id = pad_token_id tk\<rparr>"
  by (simp add: QuestionRequest_def or_default_def generate_args_def split: option.splits)

text \<open>
  Claim C7, as stated: a request with a non-positive \<open>max_tokens\<close>, \<open>top_k\<close> or
  \<open>temperature\<close>, or a \<open>top_p\<close> outside (0, 1], is rejected with a client error before
  the model is invoked. It fails: the request class declares no bound and the handler
  checks none. With \<open>max_tokens = -5\<close>, \<open>temperature = 0\<close>, \<open>top_k = 0\<close> and
  \<open>top_p = 1.5\<close> on a loaded server, \<open>generate\<close> is called with exactly these values, and
  the request is answered with the answer of the model.
\<close>

theorem predict_out_of_range_counterexample:
  "post_predict
     \<lparr>model = Some demo_model, tokenizer = Some demo_tokenizer, calls = []\<rparr>
     \<lparr>body_question = [104, 105], body_max_tokens = Some (Some (- 5)),
      body_temperature = Some (Some 0), body_top_k = Some (Some 0),
      body_top_p = Some (Some 1.5), body_repetition_penalty = None\<rparr>
   = (Returned
       \<lparr>ar_question = [104, 105], ar_answer = [111, 107],
        ar_full_output = [51656, 47928, 58, 32, 104, 105, 10, 45813, 48320, 58, 32, 111, 107],
        ar_model_path = MODEL_PATH, ar_device = device\<rparr>,
      \<lparr>model = Some demo_model, tokenizer = Some demo_tokenizer,
       calls =
         [Tokenize [51656, 47928, 58, 32, 104, 105, 10, 45813, 48320, 58],
          ToDevice [[51656, 47928, 58, 32, 104, 105, 10, 45813, 48320, 58]] device,
          Generate
            \<lparr>gen_inputs = [[51656, 47928, 58, 32, 104, 105, 10, 45813, 48320, 58]],
             gen_max_new_tokens = Some (- 5), gen_temperature = Some 0, gen_top_k = Some 0,
             gen_top_p = Some 1.5, gen_do_sample = True, gen_repetition_penalty = Some 1.8,
             gen_no_repeat_ngram_size = 4, gen_eos_token_id = Some 1,
             gen_pad_token_id = Some 0\<rparr>,
          Decode [51656, 47928, 58, 32, 104, 105, 10, 45813, 48320, 58, 32, 111, 107]]\<rparr>)"
  by (simp add: post_predict_def predict_def predict_body_def demo_eval extract_eval
      string_eval)

text \<open>
  Claim C7, amended. The service validates no range. While the model is loaded, once the
  prompt is tokenized and moved to the device, \<open>generate\<close> is called with the request's
  \<open>max_tokens\<close>, \<open>temperature\<close>, \<open>top_k\<close> and \<open>top_p\<close> exactly as they came, whatever
  their values; and an error response of the handler then has status 500, never a client
  error.
\<close>

theorem predict_passes_fields_unchecked:
  assumes "model s = Some m" and "tokenizer s = Some tk"
    and "tk_encode tk (prompt_of request) = Inr inputs0"
    and "tk_to tk inputs0 device = Inr inputs"
  shows "Generate (generate_args tk request inputs) \<in> set (calls (snd (predict s request))) \<and>
    gen_max_new_tokens (generate_args tk request inputs) = max_tokens request \<and>
    gen_temperature (generate_args tk request inputs) = temperature request \<and>
    gen_top_k (generate_args tk request inputs) = top_k request \<and>
    gen_top_p (generate_args tk request inputs) = top_p request \<and>
    (\<forall>c d. fst (predict s request) = HTTPException c d \<longrightarrow> c = 500)"
proof -
  have "Generate (generate_args tk request inputs) \<in> set (calls (snd (predict s request)))"
    using assms(3,4)
    by (simp add: predict_loaded [OF assms(1,2)] predict_body_def Let_def
        split: sum.splits prod.splits)
  moreover have "\<forall>c d. fst (predict s request) = HTTPException c d \<longrightarrow> c = 500"
    by (simp add: predict_loaded [OF assms(1,2)] split: sum.splits prod.splits)
  ultimately show ?thesis by (simp add: generate_args_def)
qed

theorem predict_passes_fields_unchecked_witness:
  "tk_encode demo_tokenizer
     (prompt_of \<lparr>question = [104, 105], max_tokens = Some 0, temperature = Some (- 1),
        top_k = Some (- 3), top_p = Some 2, repetition_penalty = Some 1.8\<rparr>)
     = Inr [[51656, 47928, 58, 32, 104, 105, 10, 45813, 48320, 58]] \<and>
   tk_to demo_tokenizer [[51656, 47928, 58, 32, 104, 105, 10, 45813, 48320, 58]] device
     = Inr [[51656, 47928, 58, 32, 104, 105, 10, 45813, 48320, 58]] \<and>
   Generate
     \<lparr>gen_inputs = [[51656, 47928, 58, 32, 104, 105, 10, 45813, 48320, 58]],
      gen_max_new_tokens = Some 0, gen_temperature = Some (- 1), gen_top_k = Some (- 3),
      gen_top_p = Some 2, gen_do_sample = True, gen_repetition_penalty = Some 1.8,
      gen_no_repeat_ngram_size = 4, gen_eos_token_id = Some 1, gen_pad_token_id = Some 0\<rparr>
   \<in> set (calls (snd (predict
       \<lparr>model = Some demo_model, tokenizer = Some demo_tokenizer, calls = []\<rparr>
       \<lparr>question = [104, 105], max_tokens = Some 0, temperature = Some (- 1),
        top_k = Some (- 3), top_p = Some 2, repetition_penalty = Some 1.8\<rparr>)))"
proof -
  let ?s = "\<lparr>model = Some demo_model, tokenizer = Some demo_tokenizer, calls = []\<rparr>"
  let ?r = "\<lparr>question = [104, 105], max_tokens = Some 0, temperature = Some (- 1),
    top_k = Some (- 3), top_p = Some 2, repetition_penalty = Some 1.8\<rparr>"
  let ?i = "[[51656, 47928, 58, 32, 104, 105, 10, 45813, 48320, 58]] :: encoding"
  have h1: "model ?s = Some demo_model" by simp
  have h2: "tokenizer ?s = Some demo_tokenizer" by simp
  have h3: "tk_encode demo_tokenizer (prompt_of ?r) = Inr ?i" by (simp add: demo_eval)
  have h4: "tk_to demo_tokenizer ?i device = Inr ?i" by (simp add: demo_eval)
  from predict_passes_fields_unchecked [OF h1 h2 h3 h4]
  have "Generate (generate_args demo_tokenizer ?r ?i) \<in> set (calls (snd (predict ?s ?r)))"
    by (rule conjunct1)
  moreover have "generate_args demo_tokenizer ?r ?i =
     \<lparr>gen_inputs = ?i,
      gen_max_new_tokens = Some 0, gen_temperature = Some (- 1), gen_top_k = Some (- 3),
      gen_top_p = Some 2, gen_do_sample = True, gen_repetition_penalty = Some 1.8,
      gen_no_repeat_ngram_size = 4, gen_eos_token_id = Some 1, gen_pad_token_id = Some 0\<rparr>"
    by (simp add: demo_eval)
  ultimately show ?thesis using h3 h4 by simp
qed



text \<open>
  Claim C9. What \<open>/health\<close> reports depends on \<open>model\<close> alone: \<open>model_loaded\<close> is true
  exactly when \<open>model\<close> is not \<open>None\<close>, the status is \<open>healthy\<close> then and
  \<open>model_not_loaded\<close> otherwise (two different strings), and changing \<open>tokenizer\<close> changes
  nothing of the report. \<open>/predict\<close> answers with the 503 of its guard exactly when
  \<open>model\<close> or \<open>tokenizer\<close> is \<open>None\<close>. So if \<open>/predict\<close> does not answer with that 503,
  \<open>/health\<close> reports \<open>model_loaded\<close>. The converse fails: with a model and no tokenizer,
  \<open>/health\<close> reports \<open>healthy\<close> and \<open>model_loaded\<close> while \<open>/predict\<close> answers 503. Startup
  reaches that state from the initial one when the imports, the base model and the adapter
  load and the tokenizer's loader raises: \<open>load_model\<close> re-raises the exception with
  \<open>model\<close> already assigned.
\<close>

theorem health_weaker_than_predict:
  "(fst (predict s request) \<noteq> HTTPException 503 not_loaded_detail \<longrightarrow>
      model_loaded (health_check s)) \<and>
   status (health_check \<lparr>model = Some m, tokenizer = None, calls = cs\<rparr>) = healthy \<and>
   model_loaded (health_check \<lparr>model = Some m, tokenizer = None, calls = cs\<rparr>) \<and>
   fst (predict \<lparr>model = Some m, tokenizer = None, calls = cs\<rparr> request)
     = HTTPException 503 not_loaded_detail \<and>
   (import_peft lib = Inr () \<and>
    base_from_pretrained lib (environ HF_TOKEN) (or_default (environ HF_HOME) default_cache_dir)
      = Inr base_model \<and>
    peft_from_pretrained lib base_model MODEL_PATH = Inr m \<and>
    tokenizer_from_pretrained lib (environ HF_TOKEN)
      (or_default (environ HF_HOME) default_cache_dir) = Inl e \<longrightarrow>
    load_model lib environ initial_server
      = (Inl e, \<lparr>model = Some m, tokenizer = None, calls = []\<rparr>)) \<and>
   model_loaded (health_check s) = (model s \<noteq> None) \<and>
   status (health_check s) = (if model s \<noteq> None then healthy else model_not_loaded) \<and>
   healthy \<noteq> model_not_loaded \<and>
   hr_device (health_check s) = device \<and>
   health_check (s\<lparr>tokenizer := tk'\<rparr>) = health_check s \<and>
   (fst (predict s request) = HTTPException 503 not_loaded_detail
      \<longleftrightarrow> model s = None \<or> tokenizer s = None)"
proof -
  have 5: "model_loaded (health_check s) = (model s \<noteq> None)"
    "status (health_check s) = (if model s \<noteq> None then healthy else model_not_loaded)"
    "hr_device (health_check s) = device"
    "health_check (s\<lparr>tokenizer := tk'\<rparr>) = health_check s"
    by (simp_all add: health_check_def)
  have 6: "healthy \<noteq> model_not_loaded"
    by (simp add: healthy_def model_not_loaded_def ascii_def)
  have 7: "fst (predict s request) = HTTPException 503 not_loaded_detail
      \<longleftrightarrow> model s = None \<or> tokenizer s = None"
    by (auto simp: predict_def split: sum.splits prod.splits)
  have 1: "fst (predict s request) \<noteq> HTTPException 503 not_loaded_detail \<longrightarrow>
      model_loaded (health_check s)"
    by (auto simp: predict_def health_check_def)
  have 2: "status (health_check \<lparr>model = Some m, tokenizer = None, calls = cs\<rparr>) = healthy"
    "model_loaded (health_check \<lparr>model = Some m, tokenizer = None, calls = cs\<rparr>)"
    by (simp_all add: health_check_def)
  have 3: "fst (predict \<lparr>model = Some m, tokenizer = None, calls = cs\<rparr> request)
     = HTTPException 503 not_loaded_detail"
    by (simp add: predict_def)
  have 4: "import_peft lib = Inr () \<and>
    base_from_pretrained lib (environ HF_TOKEN) (or_default (environ HF_HOME) default_cache_dir)
      = Inr base_model \<and>
    peft_from_pretrained lib base_model MODEL_PATH = Inr m \<and>
    tokenizer_from_pretrained lib (environ HF_TOKEN)
      (or_default (environ HF_HOME) default_cache_dir) = Inl e \<longrightarrow>
    load_model lib environ initial_server
      = (Inl e, \<lparr>model = Some m, tokenizer = None, calls = []\<rparr>)"
    by (simp add: load_model_def initial_server_def Let_def)
  from 1 2 3 4 5 6 7 show ?thesis by (intro conjI)
qed

theorem health_weaker_than_predict_witness:
  "fst (predict \<lparr>model = Some demo_model, tokenizer = Some demo_tokenizer, calls = []\<rparr>
        \<lparr>question = [104, 105], max_tokens = Some 120, temperature = Some 0.3,
         top_k = Some 40, top_p = Some 0.8, repetition_penalty = Some 1.8\<rparr>)
     \<noteq> HTTPException 503 not_loaded_detail \<and>
   model_loaded
     (health_check \<lparr>model = Some demo_model, tokenizer = Some demo_tokenizer, calls = []\<rparr>) \<and>
   load_model demo_loaders Map.empty initial_server
     = (Inl (PyException [52, 48, 49]),
        \<lparr>model = Some demo_model, tokenizer = None, calls = []\<rparr>) \<and>
   health_check \<lparr>model = Some demo_model, tokenizer = None, calls = []\<rparr>
     = \<lparr>status = healthy, model_loaded = True, hr_device = device\<rparr> \<and>
   health_check initial_server
     = \<lparr>status = model_not_loaded, model_loaded = False, hr_device = device\<rparr> \<and>
   fst (predict \<lparr>model = Some demo_model, tokenizer = None, calls = []\<rparr>
        \<lparr>question = [104, 105], max_tokens = Some 120, temperature = Some 0.3,
         top_k = Some 40, top_p = Some 0.8, repetition_penalty = Some 1.8\<rparr>)
     = HTTPException 503 not_loaded_detail"
proof -
  let ?s = "\<lparr>model = Some demo_model, tokenizer = Some demo_tokenizer, calls = []\<rparr>"
  let ?r = "\<lparr>question = [104, 105], max_tokens = Some 120, temperature = Some 0.3,
    top_k = Some 40, top_p = Some 0.8, repetition_penalty = Some 1.8\<rparr>"
  note t = health_weaker_than_predict [of ?s ?r demo_model "[]" demo_loaders Map.empty
      demo_model "PyException [52, 48, 49]"]
  have h1: "fst (predict ?s ?r) \<noteq> HTTPException 503 not_loaded_detail"
    by (simp add: predict_def split: sum.splits prod.splits)
  have h2: "import_peft demo_loaders = Inr () \<and>
    base_from_pretrained demo_loaders (Map.empty HF_TOKEN)
      (or_default (Map.empty HF_HOME) default_cache_dir) = Inr demo_model \<and>
    peft_from_pretrained demo_loaders demo_model MODEL_PATH = Inr demo_model \<and>
    tokenizer_from_pretrained demo_loaders (Map.empty HF_TOKEN)
      (or_default (Map.empty HF_HOME) default_cache_dir) = Inl (PyException [52, 48, 49])"
    by (simp add: demo_loaders_def)
  from t h1 have a: "model_loaded (health_check ?s)" by blast
  from t h2 have b: "load_model demo_loaders Map.empty initial_server
     = (Inl (PyException [52, 48, 49]),
        \<lparr>model = Some demo_model, tokenizer = None, calls = []\<rparr>)" by blast
  from t have c: "status (health_check \<lparr>model = Some demo_model, tokenizer = None, calls = []\<rparr>)
      = healthy"
    "fst (predict \<lparr>model = Some demo_model, tokenizer = None, calls = []\<rparr> ?r)
      = HTTPException 503 not_loaded_detail"
    by blast+
  have d: "health_check \<lparr>model = Some demo_model, tokenizer = None, calls = []\<rparr>
     = \<lparr>status = healthy, model_loaded = True, hr_device = device\<rparr>"
    by (simp add: health_check_def)
  have e: "health_check initial_server
     = \<lparr>status = model_not_loaded, model_loaded = False, hr_device = device\<rparr>"
    by (simp add: health_check_def initial_server_def)
  from h1 a b c d e show ?thesis by simp
qed

text \<open>
  Claim C10. The extraction written in \<open>ask_question\<close> of \<open>test_local.py\<close> and the one
  written in \<open>predict\<close> of \<open>app.py\<close> are the same function: on every decoded text they
  return the same answer.
\<close>

theorem extract_answer_local_same: "extract_answer_local t = extract_answer t"
  by (simp add: extract_answer_local_def extract_answer_def)

end
